theory Spec2Isabelle
  imports Complex_Main "HOL-Library.Word" "HOL-Library.Signed_Division" "HOL-Library.Multiset"
begin

unbundle bit_operations_syntax

section \<open>Machine integers of the Go code\<close>

text \<open>
  Go's \<open>int64\<close> and \<open>int\<close> (64-bit hosts) are \<open>64 word\<close>, read as two's complement by
  \<open>sint\<close>; \<open>uint32\<close> and \<open>fs.FileMode\<close> (a \<open>uint32\<close>) are \<open>32 word\<close>.
\<close>

type_synonym int64 = "64 word"
type_synonym uint32 = "32 word"
type_synonym FileMode = "32 word"

text \<open>Run-time panics of the Go code are values of the model.\<close>

datatype panic = DivideByZero | NilDereference

text \<open>
  Go's integer quotient \<open>/\<close> and remainder \<open>%\<close> on \<open>int64\<close>: the quotient is truncated
  towards zero, the remainder has the sign of the dividend, a zero divisor panics, and
  the one overflowing quotient (the most negative value by \<open>-1\<close>) wraps around.
\<close>

definition go_quo64 :: "int64 \<Rightarrow> int64 \<Rightarrow> panic + int64" where
  "go_quo64 a b = (if b = 0 then Inl DivideByZero else Inr (word_of_int (sint a sdiv sint b)))"

definition go_rem64 :: "int64 \<Rightarrow> int64 \<Rightarrow> panic + int64" where
  "go_rem64 a b = (if b = 0 then Inl DivideByZero else Inr (word_of_int (sint a smod sint b)))"

section \<open>Host errors (Go's \<open>error\<close> values) and their standard-library operations\<close>

text \<open>
  A non-nil \<open>error\<close> as \<open>fsErrorResponse\<close> can tell it apart: a \<open>syscall.Errno\<close>
  number, the sentinel \<open>fs.ErrNotExist\<close>, the three wrapper structs that
  \<open>os.IsNotExist\<close> looks through (\<open>*fs.PathError\<close>, \<open>*os.LinkError\<close>,
  \<open>*os.SyscallError\<close>), any other wrapper with an \<open>Unwrap() error\<close> method (such as
  the result of \<open>fmt.Errorf\<close> with \<open>%w\<close>, here with its message), and any other error
  (such as the result of \<open>errors.New\<close>), which has a message only. The error inside
  a wrapper is not nil.
\<close>

datatype goerr =
    Errno int64
  | ErrNotExist
  | ErrorString string
  | PathError string string goerr
  | LinkError string string string goerr
  | SyscallError string goerr
  | WrapError string goerr

text \<open>\<open>syscall.ENOENT\<close> on unix hosts.\<close>

definition ENOENT :: int64 where
  "ENOENT = 2"

text \<open>Decimal rendering, as \<open>internal/itoa\<close> does it.\<close>

fun Uitoa :: "nat \<Rightarrow> string" where
  "Uitoa n = (if n < 10 then [char_of (48 + n)]
              else Uitoa (n div 10) @ [char_of (48 + n mod 10)])"

definition Itoa :: "int \<Rightarrow> string" where
  "Itoa v = (if v < 0 then CHR ''-'' # Uitoa (nat (- v)) else Uitoa (nat v))"

text \<open>
  \<open>func (e Errno) Error() string\<close> of package \<open>syscall\<close>: the entry of the platform's
  message table \<open>errors\<close> when there is a non-empty one, \<open>"errno N"\<close> otherwise. The
  table is generated per platform and is a parameter here.
\<close>

definition Errno_Error :: "string list \<Rightarrow> int64 \<Rightarrow> string" where
  "Errno_Error errors e =
     (if 0 \<le> sint e \<and> sint e < int (length errors) \<and> errors ! nat (sint e) \<noteq> ''''
      then errors ! nat (sint e)
      else ''errno '' @ Itoa (sint e))"

text \<open>The \<open>Error()\<close> method of each kind of error.\<close>

fun Error :: "string list \<Rightarrow> goerr \<Rightarrow> string" where
  "Error errors (Errno e) = Errno_Error errors e"
| "Error errors ErrNotExist = ''file does not exist''"
| "Error errors (ErrorString s) = s"
| "Error errors (PathError op path err) = op @ '' '' @ path @ '': '' @ Error errors err"
| "Error errors (LinkError op old new err) =
     op @ '' '' @ old @ '' '' @ new @ '': '' @ Error errors err"
| "Error errors (SyscallError syscall err) = syscall @ '': '' @ Error errors err"
| "Error errors (WrapError msg err) = msg"

text \<open>\<open>errors.Unwrap\<close>: the result of the error's \<open>Unwrap() error\<close> method, if it has one.\<close>

fun errors_Unwrap :: "goerr \<Rightarrow> goerr option" where
  "errors_Unwrap (PathError op path err) = Some err"
| "errors_Unwrap (LinkError op old new err) = Some err"
| "errors_Unwrap (SyscallError syscall err) = Some err"
| "errors_Unwrap (WrapError msg err) = Some err"
| "errors_Unwrap err = None"

text \<open>
  \<open>os.IsNotExist\<close>: \<open>underlyingError\<close> removes one \<open>PathError\<close>, \<open>LinkError\<close> or
  \<open>SyscallError\<close>; what remains is not-found when it is the sentinel or the errno
  \<open>ENOENT\<close> (\<open>Errno.Is\<close> on unix hosts).
\<close>

fun underlyingError :: "goerr \<Rightarrow> goerr" where
  "underlyingError (PathError op path err) = err"
| "underlyingError (LinkError op old new err) = err"
| "underlyingError (SyscallError syscall err) = err"
| "underlyingError err = err"

fun os_IsNotExist :: "goerr \<Rightarrow> bool" where
  "os_IsNotExist err =
     (case underlyingError err of
        ErrNotExist \<Rightarrow> True
      | Errno e \<Rightarrow> e = ENOENT
      | _ \<Rightarrow> False)"

text \<open>The type assertion \<open>errnoErr, _ := err.(syscall.Errno)\<close>: zero when it fails.\<close>

fun as_Errno :: "goerr \<Rightarrow> int64" where
  "as_Errno (Errno e) = e"
| "as_Errno err = 0"

section \<open>The value model\<close>

text \<open>
  A \<open>*jsFunction\<close> is known by its identity: the two singletons of fs.go, or a function
  the guest supplied. \<open>funcTrue\<close> and \<open>funcFalse\<close> wrap closures that ignore their
  arguments and return \<open>true\<close> and \<open>false\<close>; the body of a guest function is not part of
  this code.
\<close>

datatype jsFunction = funcTrue | funcFalse | GuestFunc nat

text \<open>
  The values an \<open>any\<close> holds in fs.go. The pointers \<open>*jsString\<close>, \<open>*jsFunction\<close> and
  \<open>*jsObject\<close> may be nil (\<open>None\<close>); a \<open>jsString\<close> is its \<open>data\<close>, a \<open>jsObject\<close> its
  \<open>properties\<close>, a \<open>jsProperties\<close> map the list of its entries (keys distinct). A
  \<open>float64\<close> is carried as its bit pattern.
\<close>

datatype val =
    GoNil
  | GoBool bool
  | GoInt int64
  | GoInt64 int64
  | GoUint32 uint32
  | GoFloat64 "64 word"
  | GoString string
  | GoError goerr
  | JSString "string option"
  | JSFunction "jsFunction option"
  | JSObject "(string \<times> val) list option"
  | JSProperties "(string \<times> val) list"
  | Slice "val list"

type_synonym jsProperties = "(string \<times> val) list"

fun jsFunction_fn :: "jsFunction \<Rightarrow> val list \<Rightarrow> val option" where
  "jsFunction_fn funcTrue args = Some (GoBool True)"
| "jsFunction_fn funcFalse args = Some (GoBool False)"
| "jsFunction_fn (GuestFunc k) args = None"

text \<open>The type assertions \<open>v, ok := x.(T)\<close> of the bridge functions: \<open>None\<close> is \<open>!ok\<close>.\<close>

fun as_jsString :: "val \<Rightarrow> string option option" where
  "as_jsString (JSString p) = Some p"
| "as_jsString v = None"

fun as_int :: "val \<Rightarrow> int64 option" where
  "as_int (GoInt i) = Some i"
| "as_int v = None"

fun as_jsFunction :: "val \<Rightarrow> jsFunction option option" where
  "as_jsFunction (JSFunction p) = Some p"
| "as_jsFunction v = None"

section \<open>Error responses\<close>

text \<open>
  Modelled from the spec: the type \<open>errno\<close>, its constants \<open>eNOENT\<close> and \<open>eNOSYS\<close> and the
  function \<open>errorResponse\<close> are declared outside fs.go. An \<open>errno\<close> is a string (fs.go
  converts a string to it), the constants are the symbols they are named after, and an
  ErrorResponse is "a single-element sequence containing a PropertyBag with an \<open>error\<close>
  field holding either a canonical errno symbol or a raw message string".
\<close>

type_synonym errno = string

definition eNOENT :: errno where
  "eNOENT = ''ENOENT''"

definition eNOSYS :: errno where
  "eNOSYS = ''ENOSYS''"

definition errorResponse :: "errno \<Rightarrow> val list" where
  "errorResponse code = [JSProperties [(''error'', GoString code)]]"

text \<open>
  \<open>fsErrorResponse\<close>, for a non-nil error (both callers test \<open>err != nil\<close> first). The
  second argument of the \<open>let\<close> is \<open>err\<close> after the \<open>else if\<close> has replaced it.
\<close>

definition fsErrorResponse :: "string list \<Rightarrow> goerr \<Rightarrow> val list" where
  "fsErrorResponse errors err =
     (if os_IsNotExist err then errorResponse eNOENT
      else
        let err' = (case errors_Unwrap err of Some baseErr \<Rightarrow> baseErr | None \<Rightarrow> err);
            errnoErr = as_Errno err'
        in if errnoErr \<noteq> 0 then errorResponse (Errno_Error errors errnoErr)
           else [JSProperties [(''error'', GoString (Error errors err'))]])"

section \<open>File modes\<close>

text \<open>
  The constants of \<open>io/fs\<close> and of \<open>syscall\<close> (unix hosts) that fs.go uses, with
  \<open>ModeType\<close>, \<open>ModePerm\<close> and \<open>S_IFMT\<close>.
\<close>

definition ModeDir :: FileMode where "ModeDir = push_bit 31 1"
definition ModeSymlink :: FileMode where "ModeSymlink = push_bit 27 1"
definition ModeDevice :: FileMode where "ModeDevice = push_bit 26 1"
definition ModeNamedPipe :: FileMode where "ModeNamedPipe = push_bit 25 1"
definition ModeSocket :: FileMode where "ModeSocket = push_bit 24 1"
definition ModeCharDevice :: FileMode where "ModeCharDevice = push_bit 21 1"
definition ModeIrregular :: FileMode where "ModeIrregular = push_bit 19 1"

definition ModeType :: FileMode where
  "ModeType = ModeDir OR ModeSymlink OR ModeNamedPipe OR ModeSocket OR ModeDevice
                OR ModeCharDevice OR ModeIrregular"

definition ModePerm :: FileMode where "ModePerm = 0x1ff"

definition S_IFMT :: uint32 where "S_IFMT = 0xf000"
definition S_IFDIR :: uint32 where "S_IFDIR = 0x4000"
definition S_IFCHR :: uint32 where "S_IFCHR = 0x2000"
definition S_IFIFO :: uint32 where "S_IFIFO = 0x1000"
definition S_IFLNK :: uint32 where "S_IFLNK = 0xa000"
definition S_IFSOCK :: uint32 where "S_IFSOCK = 0xc000"

text \<open>\<open>FileMode.IsRegular\<close> and \<open>FileMode.IsDir\<close>.\<close>

definition IsRegular :: "FileMode \<Rightarrow> bool" where
  "IsRegular m = (m AND ModeType = 0)"

definition FileMode_IsDir :: "FileMode \<Rightarrow> bool" where
  "FileMode_IsDir m = (m AND ModeDir \<noteq> 0)"

text \<open>The map \<open>modeBitTranslation\<close>, its entries in the order of the source text.\<close>

definition modeBitTranslation :: "(FileMode \<times> uint32) list" where
  "modeBitTranslation =
     [(ModeDir, S_IFDIR), (ModeCharDevice, S_IFCHR), (ModeNamedPipe, S_IFIFO),
      (ModeSymlink, S_IFLNK), (ModeSocket, S_IFSOCK)]"

text \<open>
  One iteration of the loop of \<open>jsMode\<close>:
  \<^verbatim>\<open>if mode&goBit == goBit { mode = mode & ^goBit | fs.FileMode(jsBit) }\<close>
\<close>

definition jsMode_step :: "FileMode \<times> uint32 \<Rightarrow> FileMode \<Rightarrow> FileMode" where
  "jsMode_step entry mode =
     (case entry of (goBit, jsBit) \<Rightarrow>
        if mode AND goBit = goBit then (mode AND NOT goBit) OR jsBit else mode)"

text \<open>
  Go visits the entries of a map in an order it does not specify, each entry once. A run
  of \<open>jsMode\<close> is the loop over one such order; \<open>jsMode\<close> itself is the run in the order
  of the source text.
\<close>

definition jsMode_visit :: "(FileMode \<times> uint32) list \<Rightarrow> FileMode \<Rightarrow> uint32" where
  "jsMode_visit order mode = fold jsMode_step order mode"

definition jsMode :: "FileMode \<Rightarrow> uint32" where
  "jsMode mode = jsMode_visit modeBitTranslation mode"

section \<open>blockCount\<close>

text \<open>
  \<^verbatim>\<open>blocks := size / blockSize; if size%blockSize > 0 { return blocks + 1 }; return blocks\<close>
  The comparison \<open>> 0\<close> is signed, the addition wraps.
\<close>

definition blockCount :: "int64 \<Rightarrow> int64 \<Rightarrow> panic + int64" where
  "blockCount size' blockSize =
     (case go_quo64 size' blockSize of
        Inl p \<Rightarrow> Inl p
      | Inr blocks \<Rightarrow>
          (case go_rem64 size' blockSize of
             Inl p \<Rightarrow> Inl p
           | Inr r \<Rightarrow> if 0 < sint r then Inr (blocks + 1) else Inr blocks))"

section \<open>The stat projection\<close>

text \<open>
  What \<open>jsStat\<close> reads of an \<open>fs.FileInfo\<close>: \<open>Size()\<close>, \<open>Mode()\<close>, \<open>IsDir()\<close> and
  \<open>ModTime().UnixNano()\<close>. \<open>IsDir\<close> is a method of its own, so an implementation can
  answer it differently from \<open>Mode().IsDir()\<close>.
\<close>

record FileInfo =
  Size :: int64
  Mode :: FileMode
  ModTime_UnixNano :: int64
  IsDir :: bool

definition jsBoolFunc :: "bool \<Rightarrow> jsFunction" where
  "jsBoolFunc b = (if b then funcTrue else funcFalse)"

definition blockSize :: int64 where
  "blockSize = 4096"

text \<open>
  \<open>jsStat\<close>: \<open>None\<close> in the argument is the nil interface, \<open>None\<close> in the result the nil
  \<open>*jsObject\<close>. The untyped constant \<open>1e6\<close> is the \<open>int64\<close> 1000000.
\<close>

definition jsStat :: "FileInfo option \<Rightarrow> panic + jsProperties option" where
  "jsStat info =
     (case info of
        None \<Rightarrow> Inr None
      | Some fi \<Rightarrow>
          (case go_quo64 (ModTime_UnixNano fi) 1000000 of
             Inl p \<Rightarrow> Inl p
           | Inr modTime \<Rightarrow>
               (case blockCount (Size fi) blockSize of
                  Inl p \<Rightarrow> Inl p
                | Inr blocks \<Rightarrow>
                    Inr (Some
                      [(''dev'', GoInt 0),
                       (''ino'', GoInt 0),
                       (''mode'', GoUint32 (jsMode (Mode fi))),
                       (''nlink'', GoInt 1),
                       (''uid'', GoInt 0),
                       (''gid'', GoInt 0),
                       (''rdev'', GoInt 0),
                       (''size'', GoInt64 (Size fi)),
                       (''blksize'', GoInt blockSize),
                       (''blocks'', GoInt64 blocks),
                       (''atimeMs'', GoInt64 modTime),
                       (''mtimeMs'', GoInt64 modTime),
                       (''ctimeMs'', GoInt64 modTime),
                       (''isBlockDevice'', JSFunction (Some funcFalse)),
                       (''isCharacterDevice'', JSFunction (Some funcFalse)),
                       (''isDirectory'', JSFunction (Some (jsBoolFunc (IsDir fi)))),
                       (''isFIFO'', JSFunction (Some funcFalse)),
                       (''isFile'', JSFunction (Some (jsBoolFunc (IsRegular (Mode fi))))),
                       (''isSocket'', JSFunction (Some funcFalse)),
                       (''isSymbolicLink'',
                          JSFunction (Some (jsBoolFunc (Mode fi AND ModeSymlink = ModeSymlink))))]))))"


section \<open>The bridge functions\<close>

text \<open>
  What an invocation of a bridge function does besides returning: the calls of
  \<open>mod.error\<close>, each with its format string and operands (the diagnostic sink receives
  one message per call; \<open>Module.error\<close> itself is outside fs.go), and the calls of a
  function value's \<open>fn\<close>, each with its argument vector, in the order they happen.
\<close>

datatype event = Mod_error string "val list" | Fn_call jsFunction "val list"

type_synonym outcome = "event list \<times> (panic + val)"

text \<open>
  The filesystem abstraction: the results of \<open>Stat\<close> and \<open>Chmod\<close>, where \<open>None\<close> for the
  error is \<open>err == nil\<close>.
\<close>

record HostFS =
  Stat :: "string \<Rightarrow> FileInfo option \<times> goerr option"
  Chmod :: "string \<Rightarrow> FileMode \<Rightarrow> goerr option"

text \<open>
  The closure that \<open>fsChmod\<close> returns for a non-nil \<open>hostFS\<close>. \<open>fpath.data\<close> and
  \<open>callback.fn\<close> dereference pointers that passed the type assertion and may still be
  nil. \<open>fs.FileMode(mode)\<close> keeps the low 32 bits of the \<open>int\<close>.
\<close>

definition fsChmod_fn :: "string list \<Rightarrow> HostFS \<Rightarrow> val list \<Rightarrow> outcome" where
  "fsChmod_fn errors hostFS args =
     (if length args \<noteq> 3 then
        ([Mod_error ''fs.chmod: %d: invalid number of arguments'' [GoInt (of_nat (length args))]],
         Inr GoNil)
      else case as_jsString (args ! 0) of
        None \<Rightarrow> ([Mod_error ''fs.chmod: %T: not type string'' [args ! 0]], Inr GoNil)
      | Some fpath \<Rightarrow>
      (case as_int (args ! 1) of
        None \<Rightarrow> ([Mod_error ''fs.chmod: %T: not type int'' [args ! 1]], Inr GoNil)
      | Some mode \<Rightarrow>
      (case as_jsFunction (args ! 2) of
        None \<Rightarrow> ([Mod_error ''fs.chmod: %T: not type jsFunction'' [args ! 2]], Inr GoNil)
      | Some callback \<Rightarrow>
      (case fpath of
        None \<Rightarrow> ([], Inl NilDereference)
      | Some path \<Rightarrow>
      (case Chmod hostFS path (ucast mode) of
        Some err \<Rightarrow>
          ([Mod_error ''fs.chmod: %v'' [GoError err]], Inr (Slice (fsErrorResponse errors err)))
      | None \<Rightarrow>
      (case callback of
        None \<Rightarrow> ([], Inl NilDereference)
      | Some f \<Rightarrow> ([Fn_call f [GoNil]], Inr GoNil)))))))"

text \<open>
  The closure that \<open>fsStat\<close> returns for a non-nil \<open>hostFS\<close>. The third message names
  \<open>fs.chmod\<close> in the source too, and the report of a failed \<open>Stat\<close> is commented out
  there.
\<close>

definition fsStat_fn :: "string list \<Rightarrow> HostFS \<Rightarrow> val list \<Rightarrow> outcome" where
  "fsStat_fn errors hostFS args =
     (if length args \<noteq> 2 then
        ([Mod_error ''fs.stat: %d: invalid number of arguments'' [GoInt (of_nat (length args))]],
         Inr GoNil)
      else case as_jsString (args ! 0) of
        None \<Rightarrow> ([Mod_error ''fs.stat: %T: not type string'' [args ! 0]], Inr GoNil)
      | Some fpath \<Rightarrow>
      (case as_jsFunction (args ! 1) of
        None \<Rightarrow> ([Mod_error ''fs.chmod: %T: not type jsFunction'' [args ! 1]], Inr GoNil)
      | Some callback \<Rightarrow>
      (case fpath of
        None \<Rightarrow> ([], Inl NilDereference)
      | Some path \<Rightarrow>
      (case Stat hostFS path of
        (fi, Some err) \<Rightarrow> ([], Inr (Slice (fsErrorResponse errors err)))
      | (fi, None) \<Rightarrow>
      (case callback of
        None \<Rightarrow> ([], Inl NilDereference)
      | Some f \<Rightarrow>
      (case jsStat fi of
        Inl p \<Rightarrow> ([], Inl p)
      | Inr obj \<Rightarrow> ([Fn_call f [JSObject obj]], Inr GoNil)))))))"

text \<open>
  The factories \<open>fsChmod\<close> and \<open>fsStat\<close>. For a nil \<open>hostFS\<close> they return
  \<open>errorCallback(eNOSYS)\<close>; \<open>errorCallback\<close> is declared outside fs.go and is a
  parameter here.
\<close>

definition fsChmod ::
  "(errno \<Rightarrow> val list \<Rightarrow> outcome) \<Rightarrow> string list \<Rightarrow> HostFS option \<Rightarrow> val list \<Rightarrow> outcome" where
  "fsChmod errorCallback errors hostFS =
     (case hostFS of None \<Rightarrow> errorCallback eNOSYS | Some fs \<Rightarrow> fsChmod_fn errors fs)"

definition fsStat ::
  "(errno \<Rightarrow> val list \<Rightarrow> outcome) \<Rightarrow> string list \<Rightarrow> HostFS option \<Rightarrow> val list \<Rightarrow> outcome" where
  "fsStat errorCallback errors hostFS =
     (case hostFS of None \<Rightarrow> errorCallback eNOSYS | Some fs \<Rightarrow> fsStat_fn errors fs)"

section \<open>Notions of the specification\<close>

text \<open>The messages the diagnostic sink received, and the invocations of function values.\<close>

fun mod_errors :: "event list \<Rightarrow> (string \<times> val list) list" where
  "mod_errors [] = []"
| "mod_errors (Mod_error format operands # es) = (format, operands) # mod_errors es"
| "mod_errors (Fn_call f args # es) = mod_errors es"

fun fn_calls :: "event list \<Rightarrow> (jsFunction \<times> val list) list" where
  "fn_calls [] = []"
| "fn_calls (Mod_error format operands # es) = fn_calls es"
| "fn_calls (Fn_call f args # es) = (f, args) # fn_calls es"

text \<open>
  Arity and argument-type validation of the two bridge functions: the argument count is
  the fixed arity, the path is a \<open>*jsString\<close>, the mode of \<open>chmod\<close> is an \<open>int\<close>, the last
  argument is a \<open>*jsFunction\<close>.
\<close>

definition chmod_args_valid :: "val list \<Rightarrow> bool" where
  "chmod_args_valid args =
     (length args = 3 \<and> as_jsString (args ! 0) \<noteq> None \<and> as_int (args ! 1) \<noteq> None
        \<and> as_jsFunction (args ! 2) \<noteq> None)"

definition stat_args_valid :: "val list \<Rightarrow> bool" where
  "stat_args_valid args =
     (length args = 2 \<and> as_jsString (args ! 0) \<noteq> None \<and> as_jsFunction (args ! 1) \<noteq> None)"

text \<open>
  The type bits the translation table recognises, and the POSIX bits that stand for those
  of them that a mode has: directory, char-device, named-pipe, symlink and socket, each
  mapped to its \<open>S_IF*\<close> equivalent.
\<close>

definition recognisedTypeBits :: FileMode where
  "recognisedTypeBits = ModeDir OR ModeCharDevice OR ModeNamedPipe OR ModeSymlink OR ModeSocket"

definition posixTypeBits :: "FileMode \<Rightarrow> uint32" where
  "posixTypeBits m =
     (if m AND ModeDir = ModeDir then S_IFDIR else 0)
     OR (if m AND ModeCharDevice = ModeCharDevice then S_IFCHR else 0)
     OR (if m AND ModeNamedPipe = ModeNamedPipe then S_IFIFO else 0)
     OR (if m AND ModeSymlink = ModeSymlink then S_IFLNK else 0)
     OR (if m AND ModeSocket = ModeSocket then S_IFSOCK else 0)"

text \<open>The 20 field names of a stat result (section 4.3 of the specification lists them).\<close>

definition stat_fields :: "string list" where
  "stat_fields =
     [''dev'', ''ino'', ''uid'', ''gid'', ''rdev'', ''nlink'', ''mode'', ''size'', ''blksize'',
      ''blocks'', ''atimeMs'', ''mtimeMs'', ''ctimeMs'', ''isDirectory'', ''isFile'',
      ''isSymbolicLink'', ''isBlockDevice'', ''isCharacterDevice'', ''isFIFO'', ''isSocket'']"

text \<open>
  The leading entries (0 to 13) of the table \<open>errors\<close> of package \<open>syscall\<close> on linux,
  up to the entry of \<open>EACCES\<close>.
\<close>

definition errors_linux_head :: "string list" where
  "errors_linux_head =
     [[], ''operation not permitted'', ''no such file or directory'', ''no such process'',
      ''interrupted system call'', ''input/output error'', ''no such device or address'',
      ''argument list too long'', ''exec format error'', ''bad file descriptor'',
      ''no child processes'', ''resource temporarily unavailable'', ''cannot allocate memory'',
      ''permission denied'']"

section \<open>Auxiliary notions for the translation table\<close>

text \<open>
  The source bits of a table, the target bits of the entries whose source bit a mode has,
  tables whose entries keep apart (source bits pairwise disjoint, no target bit on a source
  bit), and source masks that a mode has wholly or not at all.
\<close>

fun table_sources :: "(FileMode \<times> uint32) list \<Rightarrow> FileMode" where
  "table_sources [] = 0"
| "table_sources ((g, j) # t) = g OR table_sources t"

fun table_targets :: "(FileMode \<times> uint32) list \<Rightarrow> FileMode \<Rightarrow> uint32" where
  "table_targets [] m = 0"
| "table_targets ((g, j) # t) m =
     (if m AND g = g then j OR table_targets t m else table_targets t m)"

definition apart :: "FileMode \<times> uint32 \<Rightarrow> FileMode \<times> uint32 \<Rightarrow> bool" where
  "apart e e' = (fst e AND fst e' = 0 \<and> snd e AND fst e' = 0 \<and> snd e' AND fst e = 0)"

fun table_separate :: "(FileMode \<times> uint32) list \<Rightarrow> bool" where
  "table_separate [] = True"
| "table_separate (e # t) = (list_all (apart e) t \<and> table_separate t)"

definition whole_or_absent :: "FileMode \<Rightarrow> bool" where
  "whole_or_absent g = (\<forall>m. m AND g = g \<or> m AND g = 0)"

text \<open>
  A field of the stat result and the field names of the stat result, when \<open>jsStat\<close>
  returned an object.
\<close>

definition stat_field :: "panic + jsProperties option \<Rightarrow> string \<Rightarrow> val option" where
  "stat_field r name = (case r of Inr (Some obj) \<Rightarrow> map_of obj name | _ \<Rightarrow> None)"

definition field_names :: "panic + jsProperties option \<Rightarrow> string list" where
  "field_names r = (case r of Inr (Some obj) \<Rightarrow> map fst obj | _ \<Rightarrow> [])"

text \<open>
  The type of an entry as its mode tells it (the type bits are exactly none, the directory
  bit, or the symlink bit), and metadata whose \<open>IsDir\<close> agrees with its mode.
\<close>

definition regular_entry :: "FileInfo \<Rightarrow> bool" where
  "regular_entry fi = (Mode fi AND ModeType = 0)"

definition directory_entry :: "FileInfo \<Rightarrow> bool" where
  "directory_entry fi = (Mode fi AND ModeType = ModeDir)"

definition symlink_entry :: "FileInfo \<Rightarrow> bool" where
  "symlink_entry fi = (Mode fi AND ModeType = ModeSymlink)"

definition well_formed :: "FileInfo \<Rightarrow> bool" where
  "well_formed fi = (IsDir fi = FileMode_IsDir (Mode fi))"

text \<open>The function values of a list of fields that are \<open>funcTrue\<close>.\<close>

definition true_valued :: "panic + jsProperties option \<Rightarrow> string list \<Rightarrow> string list" where
  "true_valued r names =
     filter (\<lambda>name. stat_field r name = Some (JSFunction (Some funcTrue))) names"

text \<open>
  Three filesystem abstractions for concrete invocations: one that has the regular file it
  is asked for and accepts every change of mode, one that denies every change of mode
  (\<open>EACCES\<close> is errno 13), and one where no path exists.
\<close>

definition acceptingFS :: HostFS where
  "acceptingFS =
     \<lparr>Stat = (\<lambda>name. (Some \<lparr>Size = 5, Mode = 0x1a4, ModTime_UnixNano = 1500000, IsDir = False\<rparr>,
                        None)),
      Chmod = (\<lambda>name mode. None)\<rparr>"

definition denyingFS :: HostFS where
  "denyingFS =
     \<lparr>Stat = (\<lambda>name. (Some \<lparr>Size = 5, Mode = 0x1a4, ModTime_UnixNano = 1500000, IsDir = False\<rparr>,
                        None)),
      Chmod = (\<lambda>name mode. Some (PathError ''chmod'' name (Errno 13)))\<rparr>"

definition missingFS :: HostFS where
  "missingFS =
     \<lparr>Stat = (\<lambda>name. (None, Some (PathError ''stat'' name (Errno ENOENT)))),
      Chmod = (\<lambda>name mode. Some (PathError ''chmod'' name (Errno ENOENT)))\<rparr>"

text \<open>The error after the one unwrapping step of the error translator.\<close>

definition unwrapped_once :: "goerr \<Rightarrow> goerr" where
  "unwrapped_once err = (case errors_Unwrap err of Some baseErr \<Rightarrow> baseErr | None \<Rightarrow> err)"

section \<open>Facts about Go's integer division\<close>

lemma sdiv_nonneg: "0 \<le> a \<Longrightarrow> 0 < b \<Longrightarrow> (a::int) sdiv b = a div b"
  by (simp add: signed_divide_int_def sgn_if)

lemma smod_nonneg: "0 \<le> a \<Longrightarrow> 0 < b \<Longrightarrow> (a::int) smod b = a mod b"
  by (simp add: signed_modulo_int_def sgn_if)

lemma sint64_of_int:
  "- (2 ^ 63) \<le> k \<Longrightarrow> k < 2 ^ 63 \<Longrightarrow> sint (word_of_int k :: int64) = k"
  by (simp add: sint_sbintrunc' signed_take_bit_int_eq_self_iff)

lemma sint64_bounds: "- (2 ^ 63) \<le> sint (w :: int64) \<and> sint w < 2 ^ 63"
  using sint_ge [of w] sint_lt [of w] by simp

lemma ceiling_div_int:
  assumes "0 < b"
  shows "\<lceil>real_of_int a / real_of_int b\<rceil> = a div b + (if a mod b = 0 then 0 else 1)"
  using assms by (simp add: ceiling_divide_eq_div zdiv_zminus1_eq_if)

lemma blockCount_nonneg:
  assumes a: "0 \<le> sint size'" and b: "0 < sint bs"
  shows "\<exists>n. blockCount size' bs = Inr n \<and>
             sint n = sint size' div sint bs + (if sint size' mod sint bs = 0 then 0 else 1)"
proof -
  define x where "x = sint size'"
  define y where "y = sint bs"
  have x0: "0 \<le> x" and y0: "0 < y" using a b by (simp_all add: x_def y_def)
  have xup: "x < 2 ^ 63" using sint64_bounds [of size'] by (simp add: x_def)
  have yup: "y < 2 ^ 63" using sint64_bounds [of bs] by (simp add: y_def)
  have bnz: "bs \<noteq> 0" using b by auto
  have q0: "0 \<le> x div y" using x0 y0 by (simp add: pos_imp_zdiv_nonneg_iff)
  have qle: "x div y \<le> x" using zdiv_mono2 [of x 1 y] x0 y0 by simp
  have r0: "0 \<le> x mod y" and rlt: "x mod y < y" using y0 by simp_all
  have sr: "sint (word_of_int (x mod y) :: int64) = x mod y"
    using r0 rlt yup by (intro sint64_of_int) simp_all
  have quo: "go_quo64 size' bs = Inr (word_of_int (x div y))"
    using bnz x0 y0 by (simp add: go_quo64_def sdiv_nonneg x_def y_def)
  have rem: "go_rem64 size' bs = Inr (word_of_int (x mod y))"
    using bnz x0 y0 by (simp add: go_rem64_def smod_nonneg x_def y_def)
  show ?thesis
  proof (cases "x mod y = 0")
    case True
    have "sint (word_of_int (x div y) :: int64) = x div y"
      using q0 qle xup by (intro sint64_of_int) simp_all
    moreover have "blockCount size' bs = Inr (word_of_int (x div y))"
      using True by (simp add: blockCount_def quo rem)
    ultimately show ?thesis using True by (simp add: x_def y_def)
  next
    case False
    then have rpos: "0 < x mod y" using r0 by simp
    have "y \<noteq> 1" using False by auto
    then have y2: "2 \<le> y" using y0 by simp
    have "x div y \<le> x div 2" using zdiv_mono2 [of x 2 y] x0 y2 by simp
    then have q1: "x div y + 1 < 2 ^ 63" using xup by simp
    have "blockCount size' bs = Inr (word_of_int (x div y) + 1)"
      using rpos by (simp add: blockCount_def quo rem sr)
    moreover have "sint (word_of_int (x div y) + 1 :: int64) = x div y + 1"
    proof -
      have "(word_of_int (x div y) + 1 :: int64) = word_of_int (x div y + 1)" by simp
      then show ?thesis using q0 q1 by (simp only: sint64_of_int)
    qed
    ultimately show ?thesis using False by (simp add: x_def y_def)
  qed
qed

section \<open>The block count\<close>

text \<open>
  C5. For every non-negative \<open>size\<close> and positive \<open>blockSize\<close>, \<open>blockCount\<close> returns (it
  does not panic), and what it returns is the ceiling of the real quotient
  \<open>size / blockSize\<close>. It is the integer quotient, plus one exactly when the integer
  remainder is not zero; so \<open>size = 0\<close> gives 0 blocks, and a \<open>size\<close> that \<open>blockSize\<close>
  divides gives \<open>size div blockSize\<close>.
\<close>

theorem blockCount_is_ceiling:
  assumes "0 \<le> sint size'" and "0 < sint bs"
  shows "\<exists>n. blockCount size' bs = Inr n
           \<and> sint n = \<lceil>real_of_int (sint size') / real_of_int (sint bs)\<rceil>
           \<and> sint n = sint size' div sint bs + (if sint size' mod sint bs = 0 then 0 else 1)
           \<and> (size' = 0 \<longrightarrow> n = 0)
           \<and> (sint bs dvd sint size' \<longrightarrow> sint n = sint size' div sint bs)"
proof -
  from blockCount_nonneg [OF assms] obtain n where
    n: "blockCount size' bs = Inr n"
    and v: "sint n = sint size' div sint bs + (if sint size' mod sint bs = 0 then 0 else 1)"
    by blast
  have c: "sint n = \<lceil>real_of_int (sint size') / real_of_int (sint bs)\<rceil>"
    using v assms(2) by (simp only: ceiling_div_int)
  have z: "n = 0" if "size' = 0"
  proof -
    have "sint n = 0" using v that by simp
    then have "word_of_int (sint n) = (word_of_int 0 :: int64)" by (simp only:)
    then show ?thesis by simp
  qed
  have d: "sint n = sint size' div sint bs" if "sint bs dvd sint size'"
    using v that by (simp add: mod_eq_0_iff_dvd)
  show ?thesis using n c v z d by blast
qed

theorem blockCount_is_ceiling_witness:
  "0 \<le> sint (4097 :: int64) \<and> 0 < sint (4096 :: int64)
     \<and> (\<exists>n. blockCount 4097 4096 = Inr n \<and> sint n = 2
            \<and> sint n = \<lceil>real_of_int (sint (4097 :: int64)) / real_of_int (sint (4096 :: int64))\<rceil>)"
proof -
  have a: "0 \<le> sint (4097 :: int64)" by simp
  have b: "0 < sint (4096 :: int64)" by simp
  from blockCount_is_ceiling [OF a b] obtain n where
    "blockCount 4097 4096 = Inr n"
    "sint n = \<lceil>real_of_int (sint (4097 :: int64)) / real_of_int (sint (4096 :: int64))\<rceil>"
    "sint n = sint (4097 :: int64) div sint (4096 :: int64)
                + (if sint (4097 :: int64) mod sint (4096 :: int64) = 0 then 0 else 1)"
    by blast
  moreover from this(3) have "sint n = 2" by simp
  ultimately show ?thesis using a b by blast
qed

section \<open>Facts about the mode translation\<close>

lemma disjoint_bits:
  "(a :: 32 word) AND b = 0 \<longleftrightarrow> (\<forall>n. \<not> (bit a n \<and> bit b n))"
proof
  assume "a AND b = 0"
  then have "bit (a AND b) n = bit (0 :: 32 word) n" for n by simp
  then show "\<forall>n. \<not> (bit a n \<and> bit b n)" by (simp add: bit_and_iff)
next
  assume "\<forall>n. \<not> (bit a n \<and> bit b n)"
  then show "a AND b = 0" by (intro bit_eqI) (simp add: bit_and_iff)
qed

lemma contains_bits:
  "(m :: 32 word) AND g = g \<longleftrightarrow> (\<forall>n. bit g n \<longrightarrow> bit m n)"
proof
  assume "m AND g = g"
  then have "bit (m AND g) n = bit g n" for n by simp
  then show "\<forall>n. bit g n \<longrightarrow> bit m n" by (auto simp: bit_and_iff)
next
  assume "\<forall>n. bit g n \<longrightarrow> bit m n"
  then show "m AND g = g" by (intro bit_eqI) (auto simp: bit_and_iff)
qed

lemmas bitwise = bit_eq_iff bit_and_iff bit_or_iff bit_not_iff

lemma test_after_rewrite:
  fixes g g' j' m :: "32 word"
  assumes "g AND g' = 0" and "j' AND g = 0"
  shows "((m AND NOT g') OR j') AND g = g \<longleftrightarrow> m AND g = g"
  using assms unfolding disjoint_bits contains_bits
  by (auto simp: bit_and_iff bit_or_iff bit_not_iff dest: bit_imp_le_length)

lemma rewrite_twice:
  fixes g g' j j' m :: "32 word"
  assumes "j' AND g = 0" and "j AND g' = 0"
  shows "(((m AND NOT g') OR j') AND NOT g) OR j = (((m AND NOT g) OR j) AND NOT g') OR j'"
  using assms unfolding disjoint_bits
  by (auto simp: bitwise dest: bit_imp_le_length)

lemma jsMode_step_commute:
  assumes "apart e e'"
  shows "jsMode_step e (jsMode_step e' m) = jsMode_step e' (jsMode_step e m)"
proof -
  obtain g j where e: "e = (g, j)" by (cases e)
  obtain g' j' where e': "e' = (g', j')" by (cases e')
  from assms have gg': "g AND g' = 0" and jg': "j AND g' = 0" and j'g: "j' AND g = 0"
    by (simp_all add: apart_def e e')
  have g'g: "g' AND g = 0" using gg' by (simp add: and.commute)
  show ?thesis
    using test_after_rewrite [OF gg' j'g, of m] test_after_rewrite [OF g'g jg', of m]
      rewrite_twice [OF j'g jg', of m]
    by (simp add: jsMode_step_def e e')
qed

lemma apart_sym: "apart e e' \<Longrightarrow> apart e' e"
  by (auto simp: apart_def and.commute)

lemma separate_steps_commute:
  assumes "table_separate t" and "x \<in> set t" and "y \<in> set t"
  shows "jsMode_step x (jsMode_step y m) = jsMode_step y (jsMode_step x m)"
  using assms
proof (induction t)
  case Nil
  then show ?case by simp
next
  case (Cons e t)
  from Cons.prems(1) have sep: "list_all (apart e) t" and rest: "table_separate t"
    by simp_all
  have head: "jsMode_step e (jsMode_step z m) = jsMode_step z (jsMode_step e m)"
    if "z \<in> set t" for z
    using sep that by (intro jsMode_step_commute) (simp add: list_all_iff)
  consider "x = y" | "x = e" "y \<in> set t" | "y = e" "x \<in> set t" | "x \<in> set t" "y \<in> set t"
    using Cons.prems(2,3) by auto
  then show ?case
  proof cases
    case 1
    then show ?thesis by simp
  next
    case 2
    then show ?thesis using head by simp
  next
    case 3
    then show ?thesis using head by simp
  next
    case 4
    then show ?thesis using Cons.IH [OF rest] by simp
  qed
qed

lemma table_targets_after_step:
  assumes "list_all (apart (g, j)) t"
  shows "table_targets t ((m AND NOT g) OR j) = table_targets t m"
  using assms
proof (induction t)
  case Nil
  show ?case by simp
next
  case (Cons e t)
  obtain g' j' where e: "e = (g', j')" by (cases e)
  from Cons.prems have ap: "apart (g, j) (g', j')" and rest: "list_all (apart (g, j)) t"
    by (simp_all add: e)
  from ap have d: "g AND g' = 0" "j AND g' = 0" by (simp_all add: apart_def)
  have g'g: "g' AND g = 0" using d(1) by (simp add: and.commute)
  have "((m AND NOT g) OR j) AND g' = g' \<longleftrightarrow> m AND g' = g'"
    by (rule test_after_rewrite [OF g'g d(2)])
  then show ?case using Cons.IH [OF rest] by (simp add: e)
qed

lemma target_misses_sources:
  assumes "list_all (apart (g, j)) t"
  shows "j AND table_sources t = 0"
  using assms
proof (induction t)
  case Nil
  show ?case by simp
next
  case (Cons e t)
  obtain g' j' where e: "e = (g', j')" by (cases e)
  from Cons.prems have ap: "apart (g, j) (g', j')" and rest: "list_all (apart (g, j)) t"
    by (simp_all add: e)
  from ap Cons.IH [OF rest] have "j AND g' = 0" "j AND table_sources t = 0"
    by (simp_all add: apart_def)
  then show ?case by (simp add: e bit.conj_disj_distrib)
qed

lemma rewrite_taken:
  fixes m g j S D :: "32 word"
  assumes "j AND S = 0"
  shows "(((m AND NOT g) OR j) AND NOT S) OR D = (m AND NOT (g OR S)) OR (j OR D)"
  using assms unfolding disjoint_bits
  by (auto simp: bitwise dest: bit_imp_le_length)

lemma rewrite_skipped:
  fixes m g S D :: "32 word"
  assumes "m AND g = 0"
  shows "(m AND NOT S) OR D = (m AND NOT (g OR S)) OR D"
  using assms unfolding disjoint_bits
  by (auto simp: bitwise dest: bit_imp_le_length)

lemma fold_jsMode_step_closed:
  assumes "table_separate t" and "list_all (\<lambda>e. whole_or_absent (fst e)) t"
  shows "fold jsMode_step t m = (m AND NOT (table_sources t)) OR table_targets t m"
  using assms
proof (induction t arbitrary: m)
  case Nil
  show ?case by simp
next
  case (Cons e t)
  obtain g j where e: "e = (g, j)" by (cases e)
  from Cons.prems have sep: "list_all (apart (g, j)) t" and rest: "table_separate t"
    and sb: "whole_or_absent g" and sbs: "list_all (\<lambda>e. whole_or_absent (fst e)) t"
    by (simp_all add: e)
  note IH = Cons.IH [OF rest sbs]
  show ?case
  proof (cases "m AND g = g")
    case True
    have "fold jsMode_step (e # t) m = fold jsMode_step t ((m AND NOT g) OR j)"
      using True by (simp add: e jsMode_step_def)
    also have "\<dots> = (((m AND NOT g) OR j) AND NOT (table_sources t)) OR table_targets t m"
      by (simp add: IH table_targets_after_step [OF sep])
    also have "\<dots> = (m AND NOT (g OR table_sources t)) OR (j OR table_targets t m)"
      by (rule rewrite_taken [OF target_misses_sources [OF sep]])
    finally show ?thesis using True by (simp add: e)
  next
    case False
    then have z: "m AND g = 0" using sb by (auto simp: whole_or_absent_def)
    have "fold jsMode_step (e # t) m = fold jsMode_step t m"
      using False by (simp add: e jsMode_step_def)
    also have "\<dots> = (m AND NOT (table_sources t)) OR table_targets t m" by (rule IH)
    also have "\<dots> = (m AND NOT (g OR table_sources t)) OR table_targets t m"
      by (rule rewrite_skipped [OF z])
    finally show ?thesis using False by (simp add: e)
  qed
qed

lemma push_bit_whole_or_absent: "whole_or_absent (push_bit k 1)"
  unfolding whole_or_absent_def
proof
  fix m :: "32 word"
  show "m AND push_bit k 1 = push_bit k 1 \<or> m AND push_bit k 1 = 0"
  proof (cases "bit m k")
    case True
    then have "m AND push_bit k 1 = push_bit k 1"
      by (intro bit_eqI) (auto simp: bit_and_iff bit_exp_iff)
    then show ?thesis ..
  next
    case False
    then have "m AND push_bit k 1 = 0"
      by (intro bit_eqI) (auto simp: bit_and_iff bit_exp_iff)
    then show ?thesis ..
  qed
qed

lemmas mode_consts = ModeDir_def ModeSymlink_def ModeNamedPipe_def ModeSocket_def
  ModeCharDevice_def S_IFDIR_def S_IFCHR_def S_IFIFO_def S_IFLNK_def S_IFSOCK_def

lemma modeBitTranslation_whole: "list_all (\<lambda>e. whole_or_absent (fst e)) modeBitTranslation"
  unfolding modeBitTranslation_def list.pred_inject fst_conv
    ModeDir_def ModeCharDevice_def ModeNamedPipe_def ModeSymlink_def ModeSocket_def
  by (intro conjI push_bit_whole_or_absent) simp

lemma modeBitTranslation_separate: "table_separate modeBitTranslation"
  by (simp add: modeBitTranslation_def apart_def mode_consts)

lemma jsMode_visit_any_order:
  assumes "mset order = mset modeBitTranslation"
  shows "jsMode_visit order mode = jsMode mode"
proof -
  have "fold jsMode_step modeBitTranslation = fold jsMode_step order"
  proof (rule fold_multiset_equiv)
    show "mset modeBitTranslation = mset order" using assms by simp
  next
    fix x y assume "x \<in> set modeBitTranslation" "y \<in> set modeBitTranslation"
    then show "jsMode_step x \<circ> jsMode_step y = jsMode_step y \<circ> jsMode_step x"
      using separate_steps_commute [OF modeBitTranslation_separate] by (auto simp: fun_eq_iff)
  qed
  then show ?thesis by (simp add: jsMode_def jsMode_visit_def)
qed

lemma jsMode_closed: "jsMode m = (m AND NOT recognisedTypeBits) OR posixTypeBits m"
proof -
  have s: "table_sources modeBitTranslation = recognisedTypeBits"
    by (simp add: modeBitTranslation_def recognisedTypeBits_def)
  have t: "table_targets modeBitTranslation m = posixTypeBits m"
    by (simp add: modeBitTranslation_def posixTypeBits_def)
  show ?thesis
    unfolding jsMode_def jsMode_visit_def
    by (simp only: fold_jsMode_step_closed [OF modeBitTranslation_separate modeBitTranslation_whole] s t)
qed

lemma posixTypeBits_within: "posixTypeBits m AND NOT S_IFMT = 0"
  by (simp add: posixTypeBits_def S_IFMT_def S_IFDIR_def S_IFCHR_def S_IFIFO_def S_IFLNK_def
      S_IFSOCK_def)

lemma recognised_misses_S_IFMT: "recognisedTypeBits AND S_IFMT = 0"
  by (simp add: recognisedTypeBits_def S_IFMT_def mode_consts)

lemma ModePerm_misses: "ModePerm AND (recognisedTypeBits OR S_IFMT) = 0"
  by (simp add: recognisedTypeBits_def S_IFMT_def ModePerm_def mode_consts)

lemma within_bits:
  "(P :: 32 word) AND NOT F = 0 \<longleftrightarrow> (\<forall>n. bit P n \<longrightarrow> bit F n)"
proof
  assume "P AND NOT F = 0"
  then have "bit (P AND NOT F) n = bit (0 :: 32 word) n" for n by simp
  then have "\<not> (bit P n \<and> n < 32 \<and> \<not> bit F n)" for n
    by (simp add: bit_and_iff bit_not_iff)
  moreover have "n < 32" if "bit P n" for n
    using bit_imp_le_length [OF that] by simp
  ultimately show "\<forall>n. bit P n \<longrightarrow> bit F n" by blast
next
  assume "\<forall>n. bit P n \<longrightarrow> bit F n"
  then show "P AND NOT F = 0"
    by (intro bit_eqI) (auto simp: bit_and_iff bit_not_iff)
qed

lemma rewritten_outside:
  fixes m R P F :: "32 word"
  assumes "P AND NOT F = 0"
  shows "((m AND NOT R) OR P) AND NOT (R OR F) = m AND NOT (R OR F)"
  using assms unfolding within_bits
  by (auto simp: bitwise dest: bit_imp_le_length)

lemma rewritten_keeps:
  fixes m R P :: "32 word"
  shows "((m AND NOT R) OR P) AND (m AND NOT R) = m AND NOT R"
  by (auto simp: bitwise dest: bit_imp_le_length)

lemma rewritten_mask:
  fixes m R P F Q :: "32 word"
  assumes "P AND NOT F = 0" and "Q AND (R OR F) = 0"
  shows "((m AND NOT R) OR P) AND Q = m AND Q"
  using assms(1) [unfolded within_bits] assms(2) [unfolded disjoint_bits]
  by (auto simp: bitwise dest: bit_imp_le_length)

lemma rewritten_clears:
  fixes m R P F :: "32 word"
  assumes "P AND NOT F = 0" and "R AND F = 0"
  shows "((m AND NOT R) OR P) AND R = 0"
  using assms(1) [unfolded within_bits] assms(2) [unfolded disjoint_bits]
  by (intro bit_eqI) (auto simp: bit_and_iff bit_or_iff bit_not_iff)

lemma jsMode_clears_recognised: "jsMode m AND recognisedTypeBits = 0"
  unfolding jsMode_closed
  by (rule rewritten_clears [OF posixTypeBits_within recognised_misses_S_IFMT])

lemma misses_each:
  fixes x a b c d e :: "32 word"
  assumes "x AND (a OR b OR c OR d OR e) = 0"
  shows "x AND a = 0" and "x AND b = 0" and "x AND c = 0" and "x AND d = 0" and "x AND e = 0"
  using assms unfolding disjoint_bits
  by (auto simp: bit_or_iff)

lemma misses_keeps:
  fixes x R :: "32 word"
  assumes "x AND R = 0"
  shows "x AND NOT R = x"
  using assms unfolding disjoint_bits
  by (auto simp: bitwise dest: bit_imp_le_length)

lemma jsMode_without_type_bits:
  assumes "x AND recognisedTypeBits = 0"
  shows "jsMode x = x"
proof -
  note z = misses_each [OF assms [unfolded recognisedTypeBits_def]]
  have nz: "ModeDir \<noteq> 0" "ModeCharDevice \<noteq> 0" "ModeNamedPipe \<noteq> 0" "ModeSymlink \<noteq> 0"
    "ModeSocket \<noteq> 0"
    by (simp_all add: mode_consts)
  have "posixTypeBits x = 0"
    using nz by (simp add: posixTypeBits_def z)
  then show ?thesis
    by (simp add: jsMode_closed misses_keeps [OF assms])
qed

section \<open>The mode translation\<close>

text \<open>
  C4. For every \<open>FileMode\<close>, \<open>jsMode\<close> returns the input with each recognised type bit
  (directory, char-device, named-pipe, symlink, socket) that it has replaced by the POSIX
  \<open>S_IF*\<close> bits standing for it, and every other bit passed through: the result is the
  input without the recognised bits, joined with the POSIX bits of those it had. Outside
  the recognised bits and the \<open>S_IFMT\<close> field the result is the input; every input bit
  that is not a recognised one is still set; the permission bits are unchanged. The
  result has no bit of the table's domain, and \<open>jsMode\<close> is idempotent.
\<close>

theorem jsMode_rewrites_type_bits:
  "jsMode m = (m AND NOT recognisedTypeBits) OR posixTypeBits m
   \<and> jsMode m AND NOT (recognisedTypeBits OR S_IFMT) = m AND NOT (recognisedTypeBits OR S_IFMT)
   \<and> jsMode m AND (m AND NOT recognisedTypeBits) = m AND NOT recognisedTypeBits
   \<and> jsMode m AND ModePerm = m AND ModePerm
   \<and> jsMode m AND recognisedTypeBits = 0
   \<and> jsMode (jsMode m) = jsMode m"
proof (intro conjI)
  show "jsMode m = (m AND NOT recognisedTypeBits) OR posixTypeBits m"
    by (rule jsMode_closed)
  show "jsMode m AND NOT (recognisedTypeBits OR S_IFMT) = m AND NOT (recognisedTypeBits OR S_IFMT)"
    unfolding jsMode_closed by (rule rewritten_outside [OF posixTypeBits_within])
  show "jsMode m AND (m AND NOT recognisedTypeBits) = m AND NOT recognisedTypeBits"
    unfolding jsMode_closed by (rule rewritten_keeps)
  show "jsMode m AND ModePerm = m AND ModePerm"
    unfolding jsMode_closed by (rule rewritten_mask [OF posixTypeBits_within ModePerm_misses])
  show "jsMode m AND recognisedTypeBits = 0"
    by (rule jsMode_clears_recognised)
  show "jsMode (jsMode m) = jsMode m"
    by (rule jsMode_without_type_bits [OF jsMode_clears_recognised])
qed

text \<open>
  C10. \<open>jsMode\<close> is deterministic: two runs on the same mode, each visiting the entries of
  the translation table in an order of its own, return the same result, which is that of
  the run in the order of the source text. The reasons: the source type bits of two
  different entries are disjoint, no POSIX replacement bit is a source type bit of any
  entry, and so the rewrites of any two entries commute.
\<close>

theorem jsMode_order_independent:
  assumes "mset order1 = mset modeBitTranslation" and "mset order2 = mset modeBitTranslation"
  shows "jsMode_visit order1 mode = jsMode_visit order2 mode
     \<and> jsMode_visit order1 mode = jsMode mode
     \<and> (\<forall>e\<in>set modeBitTranslation. \<forall>e'\<in>set modeBitTranslation.
          e \<noteq> e' \<longrightarrow> fst e AND fst e' = 0)
     \<and> (\<forall>e\<in>set modeBitTranslation. \<forall>e'\<in>set modeBitTranslation. snd e AND fst e' = 0)
     \<and> (\<forall>e\<in>set modeBitTranslation. \<forall>e'\<in>set modeBitTranslation. \<forall>m.
          jsMode_step e (jsMode_step e' m) = jsMode_step e' (jsMode_step e m))"
proof (intro conjI)
  show "jsMode_visit order1 mode = jsMode_visit order2 mode"
    by (simp only: jsMode_visit_any_order [OF assms(1)] jsMode_visit_any_order [OF assms(2)])
  show "jsMode_visit order1 mode = jsMode mode"
    by (rule jsMode_visit_any_order [OF assms(1)])
  show "\<forall>e\<in>set modeBitTranslation. \<forall>e'\<in>set modeBitTranslation. e \<noteq> e' \<longrightarrow> fst e AND fst e' = 0"
    by (simp add: modeBitTranslation_def mode_consts)
  show "\<forall>e\<in>set modeBitTranslation. \<forall>e'\<in>set modeBitTranslation. snd e AND fst e' = 0"
    by (simp add: modeBitTranslation_def mode_consts)
  show "\<forall>e\<in>set modeBitTranslation. \<forall>e'\<in>set modeBitTranslation. \<forall>m.
          jsMode_step e (jsMode_step e' m) = jsMode_step e' (jsMode_step e m)"
    using separate_steps_commute [OF modeBitTranslation_separate] by blast
qed

theorem jsMode_order_independent_witness:
  "mset (rev modeBitTranslation) = mset modeBitTranslation
   \<and> mset (rotate1 modeBitTranslation) = mset modeBitTranslation
   \<and> jsMode_visit (rev modeBitTranslation) (ModeDir OR ModeSymlink OR 0x1ed)
       = jsMode_visit (rotate1 modeBitTranslation) (ModeDir OR ModeSymlink OR 0x1ed)
   \<and> jsMode_visit (rev modeBitTranslation) (ModeDir OR ModeSymlink OR 0x1ed)
       = jsMode (ModeDir OR ModeSymlink OR 0x1ed)"
proof -
  have a: "mset (rev modeBitTranslation) = mset modeBitTranslation" by simp
  have b: "mset (rotate1 modeBitTranslation) = mset modeBitTranslation"
    by (simp add: modeBitTranslation_def)
  show ?thesis
    using a b jsMode_order_independent [OF a b, of "ModeDir OR ModeSymlink OR 0x1ed"] by blast
qed

section \<open>The stat projection\<close>

lemma go_quo64_ms:
  "\<exists>t. go_quo64 ns 1000000 = Inr t \<and> sint t = sint ns sdiv 1000000"
proof -
  define a where "a = sint ns"
  have lo: "- (2 ^ 63) \<le> a" and hi: "a < 2 ^ 63"
    using sint64_bounds [of ns] by (simp_all add: a_def)
  have "- (2 ^ 63) \<le> a sdiv 1000000 \<and> a sdiv 1000000 < 2 ^ 63"
  proof (cases "0 \<le> a")
    case True
    then have "a sdiv 1000000 = a div 1000000" by (simp add: sdiv_nonneg)
    moreover have "0 \<le> a div 1000000" using True by simp
    moreover have "a div 1000000 \<le> a" using zdiv_mono2 [of a 1 1000000] True by simp
    ultimately show ?thesis using hi by simp
  next
    case False
    then have "a sdiv 1000000 = - (- a div 1000000)"
      by (simp add: signed_divide_int_def sgn_if)
    moreover have "0 \<le> - a div 1000000" using False by simp
    moreover have "- a div 1000000 \<le> - a" using zdiv_mono2 [of "- a" 1 1000000] False by simp
    ultimately show ?thesis using lo by simp
  qed
  then have "sint (word_of_int (a sdiv 1000000) :: int64) = a sdiv 1000000"
    by (intro sint64_of_int) simp_all
  then show ?thesis by (simp add: go_quo64_def a_def)
qed

lemma blockCount_blockSize: "\<exists>n. blockCount s blockSize = Inr n"
  by (simp add: blockCount_def go_quo64_def go_rem64_def blockSize_def)

text \<open>
  C6, as amended. For every non-nil file metadata, the stat projection sets \<open>atimeMs\<close>,
  \<open>mtimeMs\<close> and \<open>ctimeMs\<close> to the same value: the modification time in nanoseconds
  divided by 1000000 with Go's integer division, which truncates towards zero. For a
  modification time at or after the Unix epoch this is the floor of the quotient.
\<close>

theorem jsStat_times:
  "\<exists>t. stat_field (jsStat (Some fi)) ''atimeMs'' = Some (GoInt64 t)
      \<and> stat_field (jsStat (Some fi)) ''mtimeMs'' = Some (GoInt64 t)
      \<and> stat_field (jsStat (Some fi)) ''ctimeMs'' = Some (GoInt64 t)
      \<and> sint t = sint (ModTime_UnixNano fi) sdiv 1000000
      \<and> (0 \<le> sint (ModTime_UnixNano fi) \<longrightarrow>
           sint t = \<lfloor>real_of_int (sint (ModTime_UnixNano fi)) / 1000000\<rfloor>)"
proof -
  obtain t where q: "go_quo64 (ModTime_UnixNano fi) 1000000 = Inr t"
    and v: "sint t = sint (ModTime_UnixNano fi) sdiv 1000000"
    using go_quo64_ms by blast
  obtain n where b: "blockCount (Size fi) blockSize = Inr n"
    using blockCount_blockSize by blast
  have f: "sint t = \<lfloor>real_of_int (sint (ModTime_UnixNano fi)) / 1000000\<rfloor>"
    if "0 \<le> sint (ModTime_UnixNano fi)"
  proof -
    have "\<lfloor>real_of_int (sint (ModTime_UnixNano fi)) / real_of_int 1000000\<rfloor>
            = sint (ModTime_UnixNano fi) div 1000000"
      by (rule floor_divide_of_int_eq)
    then show ?thesis using v that by (simp add: sdiv_nonneg)
  qed
  have "stat_field (jsStat (Some fi)) ''atimeMs'' = Some (GoInt64 t)"
    "stat_field (jsStat (Some fi)) ''mtimeMs'' = Some (GoInt64 t)"
    "stat_field (jsStat (Some fi)) ''ctimeMs'' = Some (GoInt64 t)"
    by (simp_all add: jsStat_def q b stat_field_def)
  then show ?thesis using v f by blast
qed

theorem jsStat_times_witness:
  "0 \<le> sint (1500000 :: int64)
   \<and> stat_field (jsStat (Some \<lparr>Size = 0, Mode = 0x1a4, ModTime_UnixNano = 1500000, IsDir = False\<rparr>))
        ''mtimeMs'' = Some (GoInt64 1)"
proof -
  have a: "0 \<le> sint (1500000 :: int64)" by simp
  from jsStat_times [of "\<lparr>Size = 0, Mode = 0x1a4, ModTime_UnixNano = 1500000, IsDir = False\<rparr>"]
  obtain t where
    m: "stat_field (jsStat (Some \<lparr>Size = 0, Mode = 0x1a4, ModTime_UnixNano = 1500000, IsDir = False\<rparr>))
          ''mtimeMs'' = Some (GoInt64 t)"
    and v: "sint t = sint (1500000 :: int64) sdiv 1000000"
    by auto
  from v have "sint t = 1" by (simp add: signed_divide_int_def)
  then have "word_of_int (sint t) = (word_of_int 1 :: int64)" by (simp only:)
  then have "t = 1" by simp
  then show ?thesis using a m by simp
qed

text \<open>
  The claim as stated (floor semantics) fails for a modification time before the Unix
  epoch: one nanosecond before it, the three fields are 0, and the floor is -1.
\<close>

theorem jsStat_times_floor_counterexample:
  "stat_field (jsStat (Some \<lparr>Size = 0, Mode = 0x1a4, ModTime_UnixNano = - 1, IsDir = False\<rparr>))
     ''mtimeMs'' = Some (GoInt64 0)
   \<and> GoInt64 0 \<noteq> GoInt64 (word_of_int \<lfloor>real_of_int (sint (- 1 :: int64)) / 1000000\<rfloor>)"
proof -
  have q: "go_quo64 (- 1) 1000000 = Inr 0"
    by (simp add: go_quo64_def signed_divide_int_def)
  obtain n where b: "blockCount 0 blockSize = Inr n"
    using blockCount_blockSize by blast
  have "\<lfloor>real_of_int (- 1) / 1000000\<rfloor> = (- 1 :: int)" by linarith
  then have "(word_of_int \<lfloor>real_of_int (sint (- 1 :: int64)) / 1000000\<rfloor> :: int64) = - 1"
    by simp
  then show ?thesis by (simp add: jsStat_def q b stat_field_def)
qed

lemma jsStat_field_names:
  "field_names (jsStat (Some fi)) =
     [''dev'', ''ino'', ''mode'', ''nlink'', ''uid'', ''gid'', ''rdev'', ''size'', ''blksize'',
      ''blocks'', ''atimeMs'', ''mtimeMs'', ''ctimeMs'', ''isBlockDevice'', ''isCharacterDevice'',
      ''isDirectory'', ''isFIFO'', ''isFile'', ''isSocket'', ''isSymbolicLink'']"
proof -
  obtain t where q: "go_quo64 (ModTime_UnixNano fi) 1000000 = Inr t"
    using go_quo64_ms by blast
  obtain n where b: "blockCount (Size fi) blockSize = Inr n"
    using blockCount_blockSize by blast
  show ?thesis by (simp add: jsStat_def q b field_names_def)
qed

text \<open>
  C7, as amended. Every property bag that the stat projection produces for non-nil
  metadata has the same fixed vocabulary of 20 field names (not 18), no more and no
  fewer, each once, for every input: the 13 data fields and the 7 predicate fields.
\<close>

theorem jsStat_vocabulary:
  "(\<exists>obj. jsStat (Some fi) = Inr (Some obj))
   \<and> set (field_names (jsStat (Some fi))) = set stat_fields
   \<and> distinct (field_names (jsStat (Some fi)))
   \<and> length (field_names (jsStat (Some fi))) = 20
   \<and> card (set (field_names (jsStat (Some fi)))) = 20"
proof -
  obtain t where q: "go_quo64 (ModTime_UnixNano fi) 1000000 = Inr t"
    using go_quo64_ms by blast
  obtain n where b: "blockCount (Size fi) blockSize = Inr n"
    using blockCount_blockSize by blast
  have ob: "\<exists>obj. jsStat (Some fi) = Inr (Some obj)"
    by (simp add: jsStat_def q b)
  have d: "distinct (field_names (jsStat (Some fi)))"
    unfolding jsStat_field_names by simp
  have l: "length (field_names (jsStat (Some fi))) = 20"
    unfolding jsStat_field_names by simp
  have s: "set (field_names (jsStat (Some fi))) = set stat_fields"
    unfolding jsStat_field_names stat_fields_def by (simp add: insert_commute)
  have c: "card (set (field_names (jsStat (Some fi)))) = 20"
    using distinct_card [OF d] l by simp
  show ?thesis using ob s d l c by blast
qed

text \<open>The claim as stated (18 field names) fails for every input, for example this one.\<close>

theorem jsStat_vocabulary_counterexample:
  "card (set (field_names
      (jsStat (Some \<lparr>Size = 0, Mode = 0x1a4, ModTime_UnixNano = 0, IsDir = False\<rparr>)))) \<noteq> 18"
proof -
  have d: "distinct (field_names
      (jsStat (Some \<lparr>Size = 0, Mode = 0x1a4, ModTime_UnixNano = 0, IsDir = False\<rparr>)))"
    unfolding jsStat_field_names by simp
  have "length (field_names
      (jsStat (Some \<lparr>Size = 0, Mode = 0x1a4, ModTime_UnixNano = 0, IsDir = False\<rparr>))) = 20"
    unfolding jsStat_field_names by simp
  then show ?thesis using distinct_card [OF d] by simp
qed

text \<open>
  C8. \<open>jsStat\<close> applied to the nil metadata returns the nil object: it does not panic, and
  the result has no field at all, so it is not a property bag of zeroed fields.
\<close>

theorem jsStat_nil:
  "jsStat None = Inr None \<and> field_names (jsStat None) = [] \<and> stat_field (jsStat None) name = None"
  by (simp add: jsStat_def field_names_def stat_field_def)

lemma jsStat_predicates:
  "stat_field (jsStat (Some fi)) ''isBlockDevice'' = Some (JSFunction (Some funcFalse))"
  "stat_field (jsStat (Some fi)) ''isCharacterDevice'' = Some (JSFunction (Some funcFalse))"
  "stat_field (jsStat (Some fi)) ''isFIFO'' = Some (JSFunction (Some funcFalse))"
  "stat_field (jsStat (Some fi)) ''isSocket'' = Some (JSFunction (Some funcFalse))"
  "stat_field (jsStat (Some fi)) ''isDirectory'' = Some (JSFunction (Some (jsBoolFunc (IsDir fi))))"
  "stat_field (jsStat (Some fi)) ''isFile'' =
     Some (JSFunction (Some (jsBoolFunc (IsRegular (Mode fi)))))"
  "stat_field (jsStat (Some fi)) ''isSymbolicLink'' =
     Some (JSFunction (Some (jsBoolFunc (Mode fi AND ModeSymlink = ModeSymlink))))"
proof -
  obtain t where q: "go_quo64 (ModTime_UnixNano fi) 1000000 = Inr t"
    using go_quo64_ms by blast
  obtain n where b: "blockCount (Size fi) blockSize = Inr n"
    using blockCount_blockSize by blast
  show "stat_field (jsStat (Some fi)) ''isBlockDevice'' = Some (JSFunction (Some funcFalse))"
    "stat_field (jsStat (Some fi)) ''isCharacterDevice'' = Some (JSFunction (Some funcFalse))"
    "stat_field (jsStat (Some fi)) ''isFIFO'' = Some (JSFunction (Some funcFalse))"
    "stat_field (jsStat (Some fi)) ''isSocket'' = Some (JSFunction (Some funcFalse))"
    "stat_field (jsStat (Some fi)) ''isDirectory'' = Some (JSFunction (Some (jsBoolFunc (IsDir fi))))"
    "stat_field (jsStat (Some fi)) ''isFile'' =
       Some (JSFunction (Some (jsBoolFunc (IsRegular (Mode fi)))))"
    "stat_field (jsStat (Some fi)) ''isSymbolicLink'' =
       Some (JSFunction (Some (jsBoolFunc (Mode fi AND ModeSymlink = ModeSymlink))))"
    by (simp_all add: jsStat_def q b stat_field_def)
qed

lemma type_bit_of_mode:
  fixes M T g :: "32 word"
  assumes "T AND g = g"
  shows "M AND g = (M AND T) AND g"
  using assms [unfolded contains_bits]
  by (intro bit_eqI) (auto simp: bit_and_iff)

lemma ModeType_has: "ModeType AND ModeDir = ModeDir" "ModeType AND ModeSymlink = ModeSymlink"
  by (simp_all add: ModeType_def ModeDir_def ModeSymlink_def ModeNamedPipe_def ModeSocket_def
      ModeDevice_def ModeCharDevice_def ModeIrregular_def)

lemma type_bits_differ:
  "ModeDir \<noteq> 0" "ModeSymlink \<noteq> 0" "ModeDir AND ModeSymlink = 0" "ModeSymlink AND ModeDir = 0"
  "ModeDir \<noteq> ModeSymlink"
  by (simp_all add: ModeDir_def ModeSymlink_def)

lemma predicates_of_type:
  assumes "well_formed fi"
  shows "regular_entry fi \<Longrightarrow>
           \<not> IsDir fi \<and> IsRegular (Mode fi) \<and> Mode fi AND ModeSymlink \<noteq> ModeSymlink"
    and "directory_entry fi \<Longrightarrow>
           IsDir fi \<and> \<not> IsRegular (Mode fi) \<and> Mode fi AND ModeSymlink \<noteq> ModeSymlink"
    and "symlink_entry fi \<Longrightarrow>
           \<not> IsDir fi \<and> \<not> IsRegular (Mode fi) \<and> Mode fi AND ModeSymlink = ModeSymlink"
proof -
  have dir: "Mode fi AND ModeDir = (Mode fi AND ModeType) AND ModeDir"
    by (rule type_bit_of_mode [OF ModeType_has(1)])
  have lnk: "Mode fi AND ModeSymlink = (Mode fi AND ModeType) AND ModeSymlink"
    by (rule type_bit_of_mode [OF ModeType_has(2)])
  have wf: "IsDir fi \<longleftrightarrow> Mode fi AND ModeDir \<noteq> 0"
    using assms by (simp add: well_formed_def FileMode_IsDir_def)
  show "regular_entry fi \<Longrightarrow>
           \<not> IsDir fi \<and> IsRegular (Mode fi) \<and> Mode fi AND ModeSymlink \<noteq> ModeSymlink"
    using type_bits_differ by (simp add: regular_entry_def IsRegular_def wf dir lnk)
  show "directory_entry fi \<Longrightarrow>
           IsDir fi \<and> \<not> IsRegular (Mode fi) \<and> Mode fi AND ModeSymlink \<noteq> ModeSymlink"
    using type_bits_differ by (simp add: directory_entry_def IsRegular_def wf dir lnk)
  show "symlink_entry fi \<Longrightarrow>
           \<not> IsDir fi \<and> \<not> IsRegular (Mode fi) \<and> Mode fi AND ModeSymlink = ModeSymlink"
    using type_bits_differ by (simp add: symlink_entry_def IsRegular_def wf dir lnk)
qed

text \<open>
  C9. In every stat projection of non-nil metadata the fields \<open>isBlockDevice\<close>,
  \<open>isCharacterDevice\<close>, \<open>isFIFO\<close> and \<open>isSocket\<close> are the singleton \<open>funcFalse\<close>, whose
  function returns \<open>false\<close>. For well-formed metadata whose type is exactly one of regular
  file, directory or symlink, exactly one of the fields \<open>isDirectory\<close>, \<open>isFile\<close> and
  \<open>isSymbolicLink\<close> is \<open>funcTrue\<close>, whose function returns \<open>true\<close>: the one of the
  entry's type; the other two are \<open>funcFalse\<close>.
\<close>

theorem jsStat_type_predicates:
  "stat_field (jsStat (Some fi)) ''isBlockDevice'' = Some (JSFunction (Some funcFalse))
   \<and> stat_field (jsStat (Some fi)) ''isCharacterDevice'' = Some (JSFunction (Some funcFalse))
   \<and> stat_field (jsStat (Some fi)) ''isFIFO'' = Some (JSFunction (Some funcFalse))
   \<and> stat_field (jsStat (Some fi)) ''isSocket'' = Some (JSFunction (Some funcFalse))
   \<and> jsFunction_fn funcFalse args = Some (GoBool False)
   \<and> jsFunction_fn funcTrue args = Some (GoBool True)
   \<and> (well_formed fi \<and> regular_entry fi \<longrightarrow>
        true_valued (jsStat (Some fi)) [''isDirectory'', ''isFile'', ''isSymbolicLink''] = [''isFile'']
        \<and> stat_field (jsStat (Some fi)) ''isDirectory'' = Some (JSFunction (Some funcFalse))
        \<and> stat_field (jsStat (Some fi)) ''isSymbolicLink'' = Some (JSFunction (Some funcFalse)))
   \<and> (well_formed fi \<and> directory_entry fi \<longrightarrow>
        true_valued (jsStat (Some fi)) [''isDirectory'', ''isFile'', ''isSymbolicLink'']
          = [''isDirectory'']
        \<and> stat_field (jsStat (Some fi)) ''isFile'' = Some (JSFunction (Some funcFalse))
        \<and> stat_field (jsStat (Some fi)) ''isSymbolicLink'' = Some (JSFunction (Some funcFalse)))
   \<and> (well_formed fi \<and> symlink_entry fi \<longrightarrow>
        true_valued (jsStat (Some fi)) [''isDirectory'', ''isFile'', ''isSymbolicLink'']
          = [''isSymbolicLink'']
        \<and> stat_field (jsStat (Some fi)) ''isDirectory'' = Some (JSFunction (Some funcFalse))
        \<and> stat_field (jsStat (Some fi)) ''isFile'' = Some (JSFunction (Some funcFalse)))
   \<and> (well_formed fi \<and> (regular_entry fi \<or> directory_entry fi \<or> symlink_entry fi) \<longrightarrow>
        length (true_valued (jsStat (Some fi)) [''isDirectory'', ''isFile'', ''isSymbolicLink'']) = 1)"
proof -
  have reg: "true_valued (jsStat (Some fi)) [''isDirectory'', ''isFile'', ''isSymbolicLink''] = [''isFile'']
        \<and> stat_field (jsStat (Some fi)) ''isDirectory'' = Some (JSFunction (Some funcFalse))
        \<and> stat_field (jsStat (Some fi)) ''isSymbolicLink'' = Some (JSFunction (Some funcFalse))"
    if "well_formed fi" "regular_entry fi"
    using predicates_of_type(1) [OF that]
    by (simp add: true_valued_def jsStat_predicates jsBoolFunc_def)
  have dir: "true_valued (jsStat (Some fi)) [''isDirectory'', ''isFile'', ''isSymbolicLink'']
          = [''isDirectory'']
        \<and> stat_field (jsStat (Some fi)) ''isFile'' = Some (JSFunction (Some funcFalse))
        \<and> stat_field (jsStat (Some fi)) ''isSymbolicLink'' = Some (JSFunction (Some funcFalse))"
    if "well_formed fi" "directory_entry fi"
    using predicates_of_type(2) [OF that]
    by (simp add: true_valued_def jsStat_predicates jsBoolFunc_def)
  have lnk: "true_valued (jsStat (Some fi)) [''isDirectory'', ''isFile'', ''isSymbolicLink'']
          = [''isSymbolicLink'']
        \<and> stat_field (jsStat (Some fi)) ''isDirectory'' = Some (JSFunction (Some funcFalse))
        \<and> stat_field (jsStat (Some fi)) ''isFile'' = Some (JSFunction (Some funcFalse))"
    if "well_formed fi" "symlink_entry fi"
    using predicates_of_type(3) [OF that]
    by (simp add: true_valued_def jsStat_predicates jsBoolFunc_def)
  have one: "length (true_valued (jsStat (Some fi)) [''isDirectory'', ''isFile'', ''isSymbolicLink'']) = 1"
    if "well_formed fi" "regular_entry fi \<or> directory_entry fi \<or> symlink_entry fi"
    using that reg dir lnk by auto
  show ?thesis
    using reg dir lnk one by (simp add: jsStat_predicates)
qed

theorem jsStat_type_predicates_witness:
  "well_formed \<lparr>Size = 4096, Mode = ModeDir OR 0x1ed, ModTime_UnixNano = 0, IsDir = True\<rparr>
   \<and> directory_entry \<lparr>Size = 4096, Mode = ModeDir OR 0x1ed, ModTime_UnixNano = 0, IsDir = True\<rparr>
   \<and> true_valued
        (jsStat (Some \<lparr>Size = 4096, Mode = ModeDir OR 0x1ed, ModTime_UnixNano = 0, IsDir = True\<rparr>))
        [''isDirectory'', ''isFile'', ''isSymbolicLink''] = [''isDirectory'']
   \<and> well_formed \<lparr>Size = 1, Mode = 0x1a4, ModTime_UnixNano = 0, IsDir = False\<rparr>
   \<and> regular_entry \<lparr>Size = 1, Mode = 0x1a4, ModTime_UnixNano = 0, IsDir = False\<rparr>
   \<and> true_valued
        (jsStat (Some \<lparr>Size = 1, Mode = 0x1a4, ModTime_UnixNano = 0, IsDir = False\<rparr>))
        [''isDirectory'', ''isFile'', ''isSymbolicLink''] = [''isFile'']
   \<and> well_formed \<lparr>Size = 1, Mode = ModeSymlink OR 0x1ff, ModTime_UnixNano = 0, IsDir = False\<rparr>
   \<and> symlink_entry \<lparr>Size = 1, Mode = ModeSymlink OR 0x1ff, ModTime_UnixNano = 0, IsDir = False\<rparr>
   \<and> true_valued
        (jsStat (Some \<lparr>Size = 1, Mode = ModeSymlink OR 0x1ff, ModTime_UnixNano = 0, IsDir = False\<rparr>))
        [''isDirectory'', ''isFile'', ''isSymbolicLink''] = [''isSymbolicLink'']"
proof -
  let ?d = "\<lparr>Size = 4096, Mode = ModeDir OR 0x1ed, ModTime_UnixNano = 0, IsDir = True\<rparr>"
  let ?r = "\<lparr>Size = 1, Mode = 0x1a4, ModTime_UnixNano = 0, IsDir = False\<rparr>"
  let ?l = "\<lparr>Size = 1, Mode = ModeSymlink OR 0x1ff, ModTime_UnixNano = 0, IsDir = False\<rparr>"
  have wd: "well_formed ?d" and d: "directory_entry ?d"
    by (simp_all add: well_formed_def directory_entry_def FileMode_IsDir_def ModeType_def
        ModeDir_def ModeSymlink_def ModeNamedPipe_def ModeSocket_def ModeDevice_def
        ModeCharDevice_def ModeIrregular_def)
  have wr: "well_formed ?r" and r: "regular_entry ?r"
    by (simp_all add: well_formed_def regular_entry_def FileMode_IsDir_def ModeType_def
        ModeDir_def ModeSymlink_def ModeNamedPipe_def ModeSocket_def ModeDevice_def
        ModeCharDevice_def ModeIrregular_def)
  have wl: "well_formed ?l" and l: "symlink_entry ?l"
    by (simp_all add: well_formed_def symlink_entry_def FileMode_IsDir_def ModeType_def
        ModeDir_def ModeSymlink_def ModeNamedPipe_def ModeSocket_def ModeDevice_def
        ModeCharDevice_def ModeIrregular_def)
  show ?thesis
    using wd d wr r wl l
      jsStat_type_predicates [of ?d] jsStat_type_predicates [of ?r] jsStat_type_predicates [of ?l]
    by blast
qed

section \<open>The bridge functions\<close>

lemma fsChmod_supplied: "fsChmod errorCallback errors (Some hostFS) = fsChmod_fn errors hostFS"
  by (simp add: fsChmod_def)

lemma fsStat_supplied: "fsStat errorCallback errors (Some hostFS) = fsStat_fn errors hostFS"
  by (simp add: fsStat_def)

lemma jsStat_returns: "\<exists>obj. jsStat fi = Inr obj"
proof (cases fi)
  case None
  then show ?thesis by (simp add: jsStat_def)
next
  case (Some info)
  obtain t where q: "go_quo64 (ModTime_UnixNano info) 1000000 = Inr t"
    using go_quo64_ms by blast
  obtain n where b: "blockCount (Size info) blockSize = Inr n"
    using blockCount_blockSize by blast
  show ?thesis by (simp add: Some jsStat_def q b)
qed

text \<open>
  A nil \<open>*jsString\<close> or \<open>*jsFunction\<close> passes the type assertions; dereferencing it
  panics.
\<close>

lemma fsChmod_fn_nil_path:
  "fsChmod_fn errors hostFS [JSString None, GoInt mode, JSFunction cb] = ([], Inl NilDereference)"
  by (simp add: fsChmod_fn_def)

lemma fsChmod_fn_nil_callback:
  "Chmod hostFS path (ucast mode) = None \<Longrightarrow>
   fsChmod_fn errors hostFS [JSString (Some path), GoInt mode, JSFunction None]
     = ([], Inl NilDereference)"
  by (simp add: fsChmod_fn_def)

text \<open>
  C3. For every invocation of the \<open>chmod\<close> or \<open>stat\<close> bridge function (of a supplied
  filesystem) with a wrong argument count, or with an argument whose run-time type is not
  the expected one (path a \<open>*jsString\<close>, mode of \<open>chmod\<close> an \<open>int\<close>, last argument a
  \<open>*jsFunction\<close>), the diagnostic sink receives exactly one message, no function value is
  invoked, and the bridge function returns nil.
\<close>

theorem invalid_arguments_reported_once:
  "(\<not> chmod_args_valid args \<longrightarrow>
      length (mod_errors (fst (fsChmod_fn errors hostFS args))) = 1
      \<and> fn_calls (fst (fsChmod_fn errors hostFS args)) = []
      \<and> snd (fsChmod_fn errors hostFS args) = Inr GoNil)
   \<and> (\<not> stat_args_valid args \<longrightarrow>
      length (mod_errors (fst (fsStat_fn errors hostFS args))) = 1
      \<and> fn_calls (fst (fsStat_fn errors hostFS args)) = []
      \<and> snd (fsStat_fn errors hostFS args) = Inr GoNil)"
proof (intro conjI impI)
  assume "\<not> chmod_args_valid args"
  then show "length (mod_errors (fst (fsChmod_fn errors hostFS args))) = 1"
    and "fn_calls (fst (fsChmod_fn errors hostFS args)) = []"
    and "snd (fsChmod_fn errors hostFS args) = Inr GoNil"
    by (auto simp: chmod_args_valid_def fsChmod_fn_def split: option.splits)
next
  assume "\<not> stat_args_valid args"
  then show "length (mod_errors (fst (fsStat_fn errors hostFS args))) = 1"
    and "fn_calls (fst (fsStat_fn errors hostFS args)) = []"
    and "snd (fsStat_fn errors hostFS args) = Inr GoNil"
    by (auto simp: stat_args_valid_def fsStat_fn_def split: option.splits)
qed

theorem invalid_arguments_reported_once_witness:
  "\<not> stat_args_valid [JSString (Some ''/tmp/x'')]
   \<and> length (mod_errors (fst (fsStat_fn errors_linux_head acceptingFS
        [JSString (Some ''/tmp/x'')]))) = 1
   \<and> fn_calls (fst (fsStat_fn errors_linux_head acceptingFS [JSString (Some ''/tmp/x'')])) = []
   \<and> \<not> chmod_args_valid
        [JSString (Some ''/tmp/x''), GoString ''644'', JSFunction (Some (GuestFunc 0))]
   \<and> length (mod_errors (fst (fsChmod_fn errors_linux_head acceptingFS
        [JSString (Some ''/tmp/x''), GoString ''644'', JSFunction (Some (GuestFunc 0))]))) = 1
   \<and> fn_calls (fst (fsChmod_fn errors_linux_head acceptingFS
        [JSString (Some ''/tmp/x''), GoString ''644'', JSFunction (Some (GuestFunc 0))])) = []"
proof -
  have s: "\<not> stat_args_valid [JSString (Some ''/tmp/x'')]"
    by (simp add: stat_args_valid_def)
  have c: "\<not> chmod_args_valid
        [JSString (Some ''/tmp/x''), GoString ''644'', JSFunction (Some (GuestFunc 0))]"
    by (simp add: chmod_args_valid_def)
  show ?thesis
    using s c
      invalid_arguments_reported_once [of "[JSString (Some ''/tmp/x'')]"
        errors_linux_head acceptingFS]
      invalid_arguments_reported_once [of
        "[JSString (Some ''/tmp/x''), GoString ''644'', JSFunction (Some (GuestFunc 0))]"
        errors_linux_head acceptingFS]
    by blast
qed

text \<open>
  What the two closures do when the filesystem operation fails: the error response of the
  translator is the value they return, and no function value is invoked.
\<close>

lemma failed_operation_returns_response:
  "Chmod hostFS path (ucast mode) = Some err \<Longrightarrow>
     fsChmod_fn errors hostFS [JSString (Some path), GoInt mode, JSFunction cb]
       = ([Mod_error ''fs.chmod: %v'' [GoError err]], Inr (Slice (fsErrorResponse errors err)))"
  "Stat hostFS path = (fi, Some err) \<Longrightarrow>
     fsStat_fn errors hostFS [JSString (Some path), JSFunction cb]
       = ([], Inr (Slice (fsErrorResponse errors err)))"
  by (simp_all add: fsChmod_fn_def fsStat_fn_def)

text \<open>
  C1, as amended. For every invocation of the \<open>chmod\<close> or \<open>stat\<close> bridge function (of a
  supplied filesystem) that passes arity and argument-type validation with non-nil path
  and callback: when the filesystem operation succeeds, the callback is invoked exactly
  once, for \<open>chmod\<close> with a single nil argument and for \<open>stat\<close> with the projected stat
  object as sole argument, nothing is reported to the diagnostic sink, and the bridge
  function returns nil; when the filesystem operation fails, \<open>chmod\<close> reports the error
  to the diagnostic sink exactly once and \<open>stat\<close> reports nothing, and the bridge
  function returns without a panic.
\<close>

theorem validated_invocation_outcome:
  "chmod_args_valid [JSString (Some path), GoInt mode, JSFunction (Some cb)]
   \<and> stat_args_valid [JSString (Some path), JSFunction (Some cb)]
   \<and> (Chmod hostFS path (ucast mode) = None \<longrightarrow>
        fsChmod_fn errors hostFS [JSString (Some path), GoInt mode, JSFunction (Some cb)]
          = ([Fn_call cb [GoNil]], Inr GoNil))
   \<and> (Chmod hostFS path (ucast mode) = Some err \<longrightarrow>
        mod_errors
            (fst (fsChmod_fn errors hostFS [JSString (Some path), GoInt mode, JSFunction (Some cb)]))
          = [(''fs.chmod: %v'', [GoError err])]
        \<and> (\<exists>v. snd (fsChmod_fn errors hostFS
                     [JSString (Some path), GoInt mode, JSFunction (Some cb)]) = Inr v))
   \<and> (Stat hostFS path = (fi, None) \<longrightarrow>
        (\<exists>obj. jsStat fi = Inr obj
           \<and> fsStat_fn errors hostFS [JSString (Some path), JSFunction (Some cb)]
               = ([Fn_call cb [JSObject obj]], Inr GoNil)))
   \<and> (Stat hostFS path = (fi, Some err) \<longrightarrow>
        mod_errors (fst (fsStat_fn errors hostFS [JSString (Some path), JSFunction (Some cb)]))
          = []
        \<and> (\<exists>v. snd (fsStat_fn errors hostFS [JSString (Some path), JSFunction (Some cb)])
               = Inr v))"
proof -
  have ok: "\<exists>obj. jsStat fi = Inr obj
           \<and> fsStat_fn errors hostFS [JSString (Some path), JSFunction (Some cb)]
               = ([Fn_call cb [JSObject obj]], Inr GoNil)"
    if "Stat hostFS path = (fi, None)"
  proof -
    obtain obj where o: "jsStat fi = Inr obj" using jsStat_returns by blast
    have "fsStat_fn errors hostFS [JSString (Some path), JSFunction (Some cb)]
               = ([Fn_call cb [JSObject obj]], Inr GoNil)"
      by (simp add: fsStat_fn_def that o)
    then show ?thesis using o by blast
  qed
  have c: "chmod_args_valid [JSString (Some path), GoInt mode, JSFunction (Some cb)]"
    and s: "stat_args_valid [JSString (Some path), JSFunction (Some cb)]"
    by (simp_all add: chmod_args_valid_def stat_args_valid_def)
  have c_ok: "fsChmod_fn errors hostFS [JSString (Some path), GoInt mode, JSFunction (Some cb)]
          = ([Fn_call cb [GoNil]], Inr GoNil)"
    if "Chmod hostFS path (ucast mode) = None"
    using that by (simp add: fsChmod_fn_def)
  show ?thesis
    using c s c_ok ok by (simp add: failed_operation_returns_response)
qed

theorem validated_invocation_outcome_witness:
  "Chmod acceptingFS ''/tmp/x'' (ucast (0x1a4 :: int64)) = None
   \<and> fsChmod_fn errors_linux_head acceptingFS
        [JSString (Some ''/tmp/x''), GoInt 0x1a4, JSFunction (Some (GuestFunc 0))]
       = ([Fn_call (GuestFunc 0) [GoNil]], Inr GoNil)
   \<and> Chmod denyingFS ''/tmp/x'' (ucast (0x1a4 :: int64))
       = Some (PathError ''chmod'' ''/tmp/x'' (Errno 13))
   \<and> mod_errors (fst (fsChmod_fn errors_linux_head denyingFS
        [JSString (Some ''/tmp/x''), GoInt 0x1a4, JSFunction (Some (GuestFunc 0))]))
       = [(''fs.chmod: %v'', [GoError (PathError ''chmod'' ''/tmp/x'' (Errno 13))])]
   \<and> Stat missingFS ''/nope'' = (None, Some (PathError ''stat'' ''/nope'' (Errno ENOENT)))
   \<and> mod_errors (fst (fsStat_fn errors_linux_head missingFS
        [JSString (Some ''/nope''), JSFunction (Some (GuestFunc 0))])) = []
   \<and> Stat acceptingFS ''/tmp/x''
       = (Some \<lparr>Size = 5, Mode = 0x1a4, ModTime_UnixNano = 1500000, IsDir = False\<rparr>, None)
   \<and> fn_calls (fst (fsStat_fn errors_linux_head acceptingFS
        [JSString (Some ''/tmp/x''), JSFunction (Some (GuestFunc 0))]))
       = [(GuestFunc 0, [JSObject (Some
            [(''dev'', GoInt 0), (''ino'', GoInt 0), (''mode'', GoUint32 0x1a4),
             (''nlink'', GoInt 1), (''uid'', GoInt 0), (''gid'', GoInt 0), (''rdev'', GoInt 0),
             (''size'', GoInt64 5), (''blksize'', GoInt 4096), (''blocks'', GoInt64 1),
             (''atimeMs'', GoInt64 1), (''mtimeMs'', GoInt64 1), (''ctimeMs'', GoInt64 1),
             (''isBlockDevice'', JSFunction (Some funcFalse)),
             (''isCharacterDevice'', JSFunction (Some funcFalse)),
             (''isDirectory'', JSFunction (Some funcFalse)),
             (''isFIFO'', JSFunction (Some funcFalse)),
             (''isFile'', JSFunction (Some funcTrue)),
             (''isSocket'', JSFunction (Some funcFalse)),
             (''isSymbolicLink'', JSFunction (Some funcFalse))])])]"
proof -
  let ?fi = "\<lparr>Size = 5, Mode = 0x1a4, ModTime_UnixNano = 1500000, IsDir = False\<rparr>"
  have a: "Chmod acceptingFS ''/tmp/x'' (ucast (0x1a4 :: int64)) = None"
    by (simp add: acceptingFS_def)
  have d: "Chmod denyingFS ''/tmp/x'' (ucast (0x1a4 :: int64))
       = Some (PathError ''chmod'' ''/tmp/x'' (Errno 13))"
    by (simp add: denyingFS_def)
  have m: "Stat missingFS ''/nope'' = (None, Some (PathError ''stat'' ''/nope'' (Errno ENOENT)))"
    by (simp add: missingFS_def)
  have s: "Stat acceptingFS ''/tmp/x'' = (Some ?fi, None)"
    by (simp add: acceptingFS_def)
  have mode: "jsMode 0x1a4 = 0x1a4"
    by (rule jsMode_without_type_bits) (simp add: recognisedTypeBits_def mode_consts)
  have j: "jsStat (Some ?fi) = Inr (Some
            [(''dev'', GoInt 0), (''ino'', GoInt 0), (''mode'', GoUint32 0x1a4),
             (''nlink'', GoInt 1), (''uid'', GoInt 0), (''gid'', GoInt 0), (''rdev'', GoInt 0),
             (''size'', GoInt64 5), (''blksize'', GoInt 4096), (''blocks'', GoInt64 1),
             (''atimeMs'', GoInt64 1), (''mtimeMs'', GoInt64 1), (''ctimeMs'', GoInt64 1),
             (''isBlockDevice'', JSFunction (Some funcFalse)),
             (''isCharacterDevice'', JSFunction (Some funcFalse)),
             (''isDirectory'', JSFunction (Some funcFalse)),
             (''isFIFO'', JSFunction (Some funcFalse)),
             (''isFile'', JSFunction (Some funcTrue)),
             (''isSocket'', JSFunction (Some funcFalse)),
             (''isSymbolicLink'', JSFunction (Some funcFalse))])"
    by (simp add: jsStat_def go_quo64_def go_rem64_def blockCount_def blockSize_def mode
        signed_divide_int_def signed_modulo_int_def jsBoolFunc_def IsRegular_def ModeType_def
        ModeDir_def ModeSymlink_def ModeNamedPipe_def ModeSocket_def ModeDevice_def
        ModeCharDevice_def ModeIrregular_def)
  note t1 = validated_invocation_outcome [where path = "''/tmp/x''" and mode = "0x1a4"
      and cb = "GuestFunc 0" and hostFS = acceptingFS and errors = errors_linux_head
      and err = "PathError ''chmod'' ''/tmp/x'' (Errno 13)" and fi = "Some ?fi"]
  note t2 = validated_invocation_outcome [where path = "''/tmp/x''" and mode = "0x1a4"
      and cb = "GuestFunc 0" and hostFS = denyingFS and errors = errors_linux_head
      and err = "PathError ''chmod'' ''/tmp/x'' (Errno 13)" and fi = "Some ?fi"]
  note t3 = validated_invocation_outcome [where path = "''/nope''" and mode = "0x1a4"
      and cb = "GuestFunc 0" and hostFS = missingFS and errors = errors_linux_head
      and err = "PathError ''stat'' ''/nope'' (Errno ENOENT)" and fi = None]
  show ?thesis
    using a d m s t1 t2 t3 by (simp add: j)
qed

text \<open>
  The claim as stated fails when the filesystem operation fails. \<open>stat\<close> of a path that
  does not exist, with valid arguments: no function value is invoked and nothing reaches
  the diagnostic sink; the error response is the value returned. \<open>chmod\<close> that the
  filesystem denies, with valid arguments: the error is reported, and no function value
  is invoked.
\<close>

theorem failed_operation_counterexample:
  "stat_args_valid [JSString (Some ''/nope''), JSFunction (Some (GuestFunc 0))]
   \<and> fsStat_fn errors_linux_head missingFS
        [JSString (Some ''/nope''), JSFunction (Some (GuestFunc 0))]
       = ([], Inr (Slice [JSProperties [(''error'', GoString ''ENOENT'')]]))
   \<and> chmod_args_valid [JSString (Some ''/tmp/x''), GoInt 0x1a4, JSFunction (Some (GuestFunc 0))]
   \<and> fn_calls (fst (fsChmod_fn errors_linux_head denyingFS
        [JSString (Some ''/tmp/x''), GoInt 0x1a4, JSFunction (Some (GuestFunc 0))])) = []"
  by (simp add: stat_args_valid_def chmod_args_valid_def fsStat_fn_def fsChmod_fn_def
      missingFS_def denyingFS_def fsErrorResponse_def errorResponse_def eNOENT_def)

section \<open>The error translator\<close>

text \<open>
  The ordered cascade of \<open>fsErrorResponse\<close>: the not-found test comes first and sees the
  error as it was passed; otherwise the error is unwrapped once, if it wraps another; a
  nonzero errno then gives \<open>errorResponse\<close> of the text of its \<open>Error()\<close> method, and
  anything else a property bag with the message of the error (as unwrapped).
\<close>

lemma fsErrorResponse_cascade:
  "fsErrorResponse errors err =
     (if os_IsNotExist err then errorResponse eNOENT
      else if as_Errno (unwrapped_once err) \<noteq> 0
        then errorResponse (Errno_Error errors (as_Errno (unwrapped_once err)))
      else [JSProperties [(''error'', GoString (Error errors (unwrapped_once err)))]])"
  by (simp add: fsErrorResponse_def unwrapped_once_def Let_def)

lemma not_found_under_one_wrapper:
  "os_IsNotExist (Errno ENOENT)" "os_IsNotExist ErrNotExist"
  "os_IsNotExist (PathError op path (Errno ENOENT))" "os_IsNotExist (PathError op path ErrNotExist)"
  by simp_all

lemma not_found_under_other_wrappers:
  "\<not> os_IsNotExist (WrapError msg (PathError op path (Errno ENOENT)))"
  "\<not> os_IsNotExist (PathError op path (PathError op' path' (Errno ENOENT)))"
  by simp_all

lemma errno_one_level_deep:
  assumes "e \<noteq> 0" and "e \<noteq> ENOENT"
  shows "fsErrorResponse errors (PathError op path (Errno e)) = errorResponse (Errno_Error errors e)"
  using assms by (simp add: fsErrorResponse_def)

lemma errno_two_levels_deep:
  "fsErrorResponse errors (WrapError msg (PathError op path (Errno e)))
     = [JSProperties [(''error'', GoString (op @ '' '' @ path @ '': '' @ Errno_Error errors e))]]"
  by (simp add: fsErrorResponse_def)

text \<open>
  C2. The translator evaluated at a denied \<open>chmod\<close>: the host error is a \<open>PathError\<close>
  around the errno 13 (\<open>EACCES\<close>). On every platform table that starts as the linux one,
  the response carries the text of the errno's \<open>Error()\<close> method, "permission denied",
  where the claim has the symbolic name \<open>EACCES\<close>.
\<close>

theorem fsErrorResponse_errno_text:
  "fsErrorResponse (errors_linux_head @ rest) (PathError ''chmod'' ''/tmp/x'' (Errno 13))
     = [JSProperties [(''error'', GoString ''permission denied'')]]
   \<and> errorResponse ''EACCES'' = [JSProperties [(''error'', GoString ''EACCES'')]]
   \<and> fsErrorResponse (errors_linux_head @ rest) (PathError ''chmod'' ''/tmp/x'' (Errno 13))
     \<noteq> errorResponse ''EACCES''"
  by (simp add: fsErrorResponse_def errorResponse_def Errno_Error_def errors_linux_head_def
      ENOENT_def nth_append)

end
